theory Spec2Isabelle
  imports Complex_Main
begin

section \<open>The ONNX measurement notebook (workspace/5\_measure\_onnx.ipynb)\<close>

text \<open>
  The notebook is a sequence of cells run top to bottom. Each code cell is embedded as a
  function from the notebook variables it reads to the variables it assigns. What a cell
  does besides computing is explicit: a world record holds the readings of
  \<^verbatim>\<open>time.time()\<close> and a trace of every clock reading and every
  \<^verbatim>\<open>ort_session.run\<close> call, in the order they happen, and every exception
  is a value of type \<open>error\<close>.

  Python floats are idealised as real numbers; the places where numpy's float division
  does not raise on a zero divisor are kept by the type \<open>float64\<close>. The
  \<^verbatim>\<open>print\<close> statements and their \<^verbatim>\<open>:.2f\<close> formatting are not part of the
  model: a cell's report is the number handed to the formatter.
\<close>

subsection \<open>Errors and values\<close>

datatype error =
    StopIteration
  | ZeroDivisionError
  | ValueError
  | IndexError
  | FileNotFoundError
  | EngineError

datatype float64 = Finite real | PosInf | NegInf | NaN

text \<open>\<^verbatim>\<open>x / y\<close> where \<open>y\<close> is a numpy float: a zero divisor gives inf or nan.\<close>

definition np_truediv :: "real \<Rightarrow> real \<Rightarrow> float64" where
  "np_truediv x y =
     (if y = 0 then (if x = 0 then NaN else if 0 < x then PosInf else NegInf)
      else Finite (x / y))"

text \<open>\<^verbatim>\<open>x * k\<close> for a numpy float \<open>x\<close> and a Python number \<open>k\<close>.\<close>

definition np_mul :: "float64 \<Rightarrow> real \<Rightarrow> float64" where
  "np_mul x k =
     (case x of
        Finite r \<Rightarrow> Finite (r * k)
      | NaN \<Rightarrow> NaN
      | PosInf \<Rightarrow> (if k = 0 then NaN else if 0 < k then PosInf else NegInf)
      | NegInf \<Rightarrow> (if k = 0 then NaN else if 0 < k then NegInf else PosInf))"

subsection \<open>The world: wall clock and inference session\<close>

text \<open>
  \<open>clock w i\<close> is what the \<open>i\<close>-th call of \<^verbatim>\<open>time.time()\<close> returns; nothing is
  assumed about it (the wall clock may be set back between two readings). The trace
  records every reading and the input of every \<^verbatim>\<open>ort_session.run\<close> call that
  returned, oldest first.
\<close>

datatype 'img event = Tick real | Run "'img list"

record 'img world =
  clock :: "nat \<Rightarrow> real"
  ticks :: nat
  trace :: "'img event list"

definition time_time :: "'img world \<Rightarrow> real \<times> 'img world" where
  "time_time w =
     (let t = clock w (ticks w)
      in (t, w\<lparr>ticks := Suc (ticks w), trace := trace w @ [Tick t]\<rparr>))"

text \<open>
  The inference session is opaque: a batch of inputs goes in, one row of class scores per
  output row comes out, or the call raises.
\<close>

type_synonym 'img engine = "'img list \<Rightarrow> error + real list list"

definition session_run ::
  "'img engine \<Rightarrow> 'img list \<Rightarrow> 'img world \<Rightarrow> error + (real list list \<times> 'img world)" where
  "session_run e x w =
     (case e x of
        Inl err \<Rightarrow> Inl err
      | Inr outputs \<Rightarrow> Inr (outputs, w\<lparr>trace := trace w @ [Run x]\<rparr>))"

subsection \<open>The test loader (cell 3)\<close>

text \<open>
  \<^verbatim>\<open>DataLoader(test_dataset, batch_size=32, shuffle=False)\<close> yields the samples
  of the dataset in dataset order, collated into batches: a batch is a list of
  (image, label) samples, the loader the list of its batches. \<^verbatim>\<open>iter\<close> starts
  a new pass at the first batch; \<^verbatim>\<open>next\<close> on an exhausted pass raises.
\<close>

type_synonym 'img batch = "('img \<times> nat) list"
type_synonym 'img loader = "'img batch list"

definition py_iter :: "'img loader \<Rightarrow> 'img batch list" where
  "py_iter test_loader = test_loader"

definition py_next :: "'a list \<Rightarrow> error + 'a" where
  "py_next it = (case it of [] \<Rightarrow> Inl StopIteration | b # _ \<Rightarrow> Inr b)"

subsection \<open>numpy helpers\<close>

text \<open>\<^verbatim>\<open>np.argmax\<close>: the first index of the largest entry; an empty row raises.\<close>

fun argmax_from :: "real \<Rightarrow> nat \<Rightarrow> nat \<Rightarrow> real list \<Rightarrow> nat" where
  "argmax_from best besti i [] = besti"
| "argmax_from best besti i (x # xs) =
     (if best < x then argmax_from x i (Suc i) xs else argmax_from best besti (Suc i) xs)"

definition np_argmax :: "real list \<Rightarrow> error + nat" where
  "np_argmax row = (case row of [] \<Rightarrow> Inl ValueError | x # xs \<Rightarrow> Inr (argmax_from x 0 1 xs))"

fun np_argmax_axis1 :: "real list list \<Rightarrow> error + nat list" where
  "np_argmax_axis1 [] = Inr []"
| "np_argmax_axis1 (row # rows) =
     (case np_argmax row of
        Inl err \<Rightarrow> Inl err
      | Inr k \<Rightarrow> (case np_argmax_axis1 rows of Inl err \<Rightarrow> Inl err | Inr ks \<Rightarrow> Inr (k # ks)))"

text \<open>
  \<^verbatim>\<open>(predicted == labels.numpy()).sum()\<close>: elementwise on equal lengths; an
  array of length one is broadcast against the other; any other pair of lengths raises.
\<close>

definition np_eq_sum :: "nat list \<Rightarrow> nat list \<Rightarrow> error + int" where
  "np_eq_sum predicted labels =
     (if length predicted = length labels
        then Inr (int (length (filter (\<lambda>(p, l). p = l) (zip predicted labels))))
      else if length predicted = 1
        then Inr (int (length (filter (\<lambda>l. hd predicted = l) labels)))
      else if length labels = 1
        then Inr (int (length (filter (\<lambda>p. p = hd labels) predicted)))
      else Inl ValueError)"

text \<open>
  \<^verbatim>\<open>np.percentile(a, q)\<close> with the default method (linear interpolation between
  the two closest ranks of the sorted data). A \<open>q\<close> outside \<open>[0, 100]\<close> raises; so
  does an empty \<open>a\<close> in this model (numpy's answer there depends on its version, and no
  property below rests on it).
\<close>

definition np_percentile :: "real list \<Rightarrow> real \<Rightarrow> error + real" where
  "np_percentile a q =
     (if q < 0 \<or> 100 < q then Inl ValueError
      else if a = [] then Inl IndexError
      else
        let s = sort a;
            n = length s;
            virtual_index = real (n - 1) * (q / 100);
            previous_index = nat \<lfloor>virtual_index\<rfloor>;
            next_index = min (previous_index + 1) (n - 1);
            gamma = virtual_index - real previous_index
        in Inr (s ! previous_index + (s ! next_index - s ! previous_index) * gamma))"

subsection \<open>Test accuracy (cell 11)\<close>

fun accuracy_loop ::
  "'img engine \<Rightarrow> 'img loader \<Rightarrow> int \<times> int \<Rightarrow> 'img world \<Rightarrow> error + ((int \<times> int) \<times> 'img world)" where
  "accuracy_loop e [] (correct, total_n) w = Inr ((correct, total_n), w)"
| "accuracy_loop e (b # bs) (correct, total_n) w =
     (let images = map fst b; labels = map snd b in
      case session_run e images w of
        Inl err \<Rightarrow> Inl err
      | Inr (outputs, w1) \<Rightarrow>
          (case np_argmax_axis1 outputs of
             Inl err \<Rightarrow> Inl err
           | Inr predicted \<Rightarrow>
               (let total1 = total_n + int (length labels) in
                case np_eq_sum predicted labels of
                  Inl err \<Rightarrow> Inl err
                | Inr k \<Rightarrow> accuracy_loop e bs (correct + k, total1) w1)))"

record accuracy_result =
  correct :: int
  total_n :: int
  accuracy :: float64

text \<open>
  \<^verbatim>\<open>accuracy = (correct / total) * 100\<close>. With no batch at all both counters are
  still the Python integers 0 and the division raises; after a first batch \<open>correct\<close>
  is a numpy integer and a zero \<open>total\<close> (here \<open>total_n\<close>) gives nan.
\<close>

definition accuracy_cell ::
  "'img engine \<Rightarrow> 'img loader \<Rightarrow> 'img world \<Rightarrow> error + (accuracy_result \<times> 'img world)" where
  "accuracy_cell e test_loader w =
     (case accuracy_loop e (py_iter test_loader) (0, 0) w of
        Inl err \<Rightarrow> Inl err
      | Inr ((c, t), w1) \<Rightarrow>
          if test_loader = [] then Inl ZeroDivisionError
          else Inr (\<lparr>correct = c, total_n = t,
                     accuracy = np_mul (np_truediv (real_of_int c) (real_of_int t)) 100\<rparr>, w1))"

subsection \<open>Model size (cell 14)\<close>

type_synonym filesystem = "string \<rightharpoonup> nat"

definition os_path_getsize :: "filesystem \<Rightarrow> string \<Rightarrow> error + nat" where
  "os_path_getsize fs path =
     (case fs path of None \<Rightarrow> Inl FileNotFoundError | Some n \<Rightarrow> Inr n)"

text \<open>The number handed to the \<^verbatim>\<open>:.2f\<close> formatter: \<^verbatim>\<open>model_size / (1e6)\<close>.\<close>

definition model_size_mb :: "nat \<Rightarrow> real" where
  "model_size_mb model_size = real model_size / 1000000"

definition size_cell :: "filesystem \<Rightarrow> string \<Rightarrow> error + (nat \<times> real)" where
  "size_cell fs onnx_model_path =
     (case os_path_getsize fs onnx_model_path of
        Inl err \<Rightarrow> Inl err
      | Inr model_size \<Rightarrow> Inr (model_size, model_size_mb model_size))"

subsection \<open>Inference latency (cells 16 and 17)\<close>

text \<open>
  The timed loop, shared in shape by cells 16 and 19:
  \<^verbatim>\<open>for _ in range(n): start_time = time.time(); ort_session.run(..x..);
  recorded.append(time.time() - start_time)\<close>.
\<close>

fun timed_loop ::
  "'img engine \<Rightarrow> 'img list \<Rightarrow> nat \<Rightarrow> real list \<Rightarrow> 'img world \<Rightarrow> error + (real list \<times> 'img world)" where
  "timed_loop e x 0 recorded w = Inr (recorded, w)"
| "timed_loop e x (Suc n) recorded w =
     (case time_time w of
        (start_time, w1) \<Rightarrow>
          (case session_run e x w1 of
             Inl err \<Rightarrow> Inl err
           | Inr (outputs, w2) \<Rightarrow>
               (case time_time w2 of
                  (end_time, w3) \<Rightarrow> timed_loop e x n (recorded @ [end_time - start_time]) w3)))"

text \<open>
  Cell 16: take the first batch of a new pass over the loader, keep its first image
  (\<^verbatim>\<open>single_sample[:1]\<close>), run once untimed, then time \<open>num_trials\<close> runs.
  \<^verbatim>\<open>range\<close> of a negative number is empty. The notebook sets
  \<^verbatim>\<open>num_trials = 100\<close>; here it is a parameter.
\<close>

definition latency_cell ::
  "'img engine \<Rightarrow> 'img loader \<Rightarrow> int \<Rightarrow> 'img world \<Rightarrow> error + (real list \<times> 'img world)" where
  "latency_cell e test_loader num_trials w =
     (case py_next (py_iter test_loader) of
        Inl err \<Rightarrow> Inl err
      | Inr b \<Rightarrow>
          (let single_sample = take 1 (map fst b) in
           case session_run e single_sample w of
             Inl err \<Rightarrow> Inl err
           | Inr (outputs, w1) \<Rightarrow> timed_loop e single_sample (nat num_trials) [] w1))"

record latency_report =
  median_ms :: real
  p95_ms :: real
  p99_ms :: real
  single_fps :: float64

text \<open>Cell 17: the four numbers printed from \<open>latencies\<close> and \<open>num_trials\<close>.\<close>

definition latency_stats :: "real list \<Rightarrow> int \<Rightarrow> error + latency_report" where
  "latency_stats latencies num_trials =
     (case np_percentile latencies 50 of
        Inl err \<Rightarrow> Inl err
      | Inr p50 \<Rightarrow>
     (case np_percentile latencies 95 of
        Inl err \<Rightarrow> Inl err
      | Inr p95 \<Rightarrow>
     (case np_percentile latencies 99 of
        Inl err \<Rightarrow> Inl err
      | Inr p99 \<Rightarrow>
          Inr \<lparr>median_ms = p50 * 1000, p95_ms = p95 * 1000, p99_ms = p99 * 1000,
               single_fps = np_truediv (real_of_int num_trials) (sum_list latencies)\<rparr>)))"

subsection \<open>Batch throughput (cells 19 and 20)\<close>

text \<open>
  Cell 19: the whole first batch of a new pass over the loader, one untimed run, then
  \<open>num_batches\<close> timed runs (\<^verbatim>\<open>num_batches = 50\<close> in the notebook). The cell
  leaves \<open>batch_input\<close> and \<open>batch_times\<close> behind.
\<close>

definition batch_cell ::
  "'img engine \<Rightarrow> 'img loader \<Rightarrow> int \<Rightarrow> 'img world
     \<Rightarrow> error + (('img list \<times> real list) \<times> 'img world)" where
  "batch_cell e test_loader num_batches w =
     (case py_next (py_iter test_loader) of
        Inl err \<Rightarrow> Inl err
      | Inr b \<Rightarrow>
          (let batch_input = map fst b in
           case session_run e batch_input w of
             Inl err \<Rightarrow> Inl err
           | Inr (outputs, w1) \<Rightarrow>
               (case timed_loop e batch_input (nat num_batches) [] w1 of
                  Inl err \<Rightarrow> Inl err
                | Inr (batch_times, w2) \<Rightarrow> Inr ((batch_input, batch_times), w2))))"

text \<open>
  Cell 20:
  \<^verbatim>\<open>batch_fps = (batch_input.shape[0] * num_batches) / np.sum(batch_times)\<close>.
\<close>

definition batch_fps :: "'img list \<Rightarrow> int \<Rightarrow> real list \<Rightarrow> float64" where
  "batch_fps batch_input num_batches batch_times =
     np_truediv (real_of_int (int (length batch_input) * num_batches)) (sum_list batch_times)"

subsection \<open>The notebook, top to bottom\<close>

record 'img notebook_vars =
  acc :: accuracy_result
  model_size :: nat
  latencies :: "real list"
  latency :: latency_report
  batch_input :: "'img list"
  batch_times :: "real list"
  batch_throughput :: float64

definition notebook ::
  "'img engine \<Rightarrow> 'img loader \<Rightarrow> filesystem \<Rightarrow> string \<Rightarrow> int \<Rightarrow> int \<Rightarrow> 'img world
     \<Rightarrow> error + ('img notebook_vars \<times> 'img world)" where
  "notebook e test_loader fs onnx_model_path num_trials num_batches w =
     (case accuracy_cell e test_loader w of
        Inl err \<Rightarrow> Inl err
      | Inr (a, w1) \<Rightarrow>
     (case size_cell fs onnx_model_path of
        Inl err \<Rightarrow> Inl err
      | Inr (sz, mb) \<Rightarrow>
     (case latency_cell e test_loader num_trials w1 of
        Inl err \<Rightarrow> Inl err
      | Inr (lat, w2) \<Rightarrow>
     (case latency_stats lat num_trials of
        Inl err \<Rightarrow> Inl err
      | Inr rep \<Rightarrow>
     (case batch_cell e test_loader num_batches w2 of
        Inl err \<Rightarrow> Inl err
      | Inr ((bi, bt), w3) \<Rightarrow>
          Inr (\<lparr>acc = a, model_size = sz, latencies = lat, latency = rep,
                batch_input = bi, batch_times = bt,
                batch_throughput = batch_fps bi num_batches bt\<rparr>, w3))))))"

subsection \<open>Notions used to state the properties\<close>

text \<open>The inputs of the engine calls of a trace, and the calls bracketed by clock readings.\<close>

fun run_inputs :: "'img event list \<Rightarrow> 'img list list" where
  "run_inputs [] = []"
| "run_inputs (Tick t # evs) = run_inputs evs"
| "run_inputs (Run x # evs) = x # run_inputs evs"

fun timed_runs :: "'img event list \<Rightarrow> 'img list list" where
  "timed_runs (Tick t0 # Run x # Tick t1 # evs) = x # timed_runs evs"
| "timed_runs (ev # evs) = timed_runs evs"
| "timed_runs [] = []"

text \<open>The events of the \<open>i\<close>-th timed call when the first reading is number \<open>k\<close>.\<close>

definition trial_events :: "(nat \<Rightarrow> real) \<Rightarrow> nat \<Rightarrow> 'img list \<Rightarrow> nat \<Rightarrow> 'img event list" where
  "trial_events clk k x i = [Tick (clk (k + 2 * i)), Run x, Tick (clk (k + 2 * i + 1))]"

definition trial_times :: "(nat \<Rightarrow> real) \<Rightarrow> nat \<Rightarrow> nat \<Rightarrow> real list" where
  "trial_times clk k n = map (\<lambda>i. clk (k + 2 * i + 1) - clk (k + 2 * i)) [0..<n]"

text \<open>A clock that is not set back while a call is being timed.\<close>

definition clock_steady :: "(nat \<Rightarrow> real) \<Rightarrow> nat \<Rightarrow> nat \<Rightarrow> bool" where
  "clock_steady clk k n = list_all (\<lambda>i. clk (k + 2 * i) \<le> clk (k + 2 * i + 1)) [0..<n]"

text \<open>
  Class \<open>c\<close> has the strictly highest score of a row; an engine that gives every sample
  of every batch of the loader a row on which its label scores highest; and an engine
  whose predicted class is, for every sample of the loader, not the label.
\<close>

definition scores_highest :: "real list \<Rightarrow> nat \<Rightarrow> bool" where
  "scores_highest row c =
     (c < length row \<and> list_all (\<lambda>j. j = c \<or> row ! j < row ! c) [0..<length row])"

definition always_correct :: "'img engine \<Rightarrow> 'img loader \<Rightarrow> bool" where
  "always_correct e test_loader =
     list_all (\<lambda>b. case e (map fst b) of
                      Inl err \<Rightarrow> False
                    | Inr outputs \<Rightarrow> list_all2 scores_highest outputs (map snd b)) test_loader"

definition always_wrong :: "'img engine \<Rightarrow> 'img loader \<Rightarrow> bool" where
  "always_wrong e test_loader =
     list_all (\<lambda>b. case e (map fst b) of
                      Inl err \<Rightarrow> False
                    | Inr outputs \<Rightarrow>
                        list_all2 (\<lambda>row l. case np_argmax row of
                                              Inl err \<Rightarrow> False
                                            | Inr p \<Rightarrow> p \<noteq> l) outputs (map snd b)) test_loader"

text \<open>
  The shape contract of the exported model (cell 4 declares axis 0 of both
  \<^verbatim>\<open>input\<close> and \<^verbatim>\<open>output\<close> as the batch axis): one row of scores per image.
\<close>

definition one_row_per_image :: "'img engine \<Rightarrow> 'img loader \<Rightarrow> bool" where
  "one_row_per_image e test_loader =
     list_all (\<lambda>b. case e (map fst b) of
                      Inl err \<Rightarrow> True
                    | Inr outputs \<Rightarrow> length outputs = length b) test_loader"

definition samples_of :: "'img loader \<Rightarrow> nat" where
  "samples_of test_loader = length (concat test_loader)"

text \<open>
  The piecewise linear curve through the points \<open>(i, s ! i)\<close>, read at the rank \<open>v\<close>:
  what \<open>np_percentile\<close> evaluates on the sorted data.
\<close>

definition rank_interp :: "real list \<Rightarrow> real \<Rightarrow> real" where
  "rank_interp s v =
     s ! nat \<lfloor>v\<rfloor>
       + (s ! min (nat \<lfloor>v\<rfloor> + 1) (length s - 1) - s ! nat \<lfloor>v\<rfloor>) * (v - real (nat \<lfloor>v\<rfloor>))"

subsection \<open>Stub engines and data for concrete runs\<close>

text \<open>
  Images are numbers and there are three classes. \<open>stub_engine\<close> scores class
  \<open>i mod 3\<close> highest for image \<open>i\<close>, \<open>wrong_engine\<close> the class after it. In
  \<open>demo_loader\<close> every image \<open>i\<close> carries the label \<open>i mod 3\<close>.
\<close>

definition stub_scores :: "nat \<Rightarrow> real list" where
  "stub_scores c = map (\<lambda>j. if j = c then 1 else 0) [0..<3]"

definition stub_engine :: "nat engine" where
  "stub_engine imgs = Inr (map (\<lambda>i. stub_scores (i mod 3)) imgs)"

definition wrong_engine :: "nat engine" where
  "wrong_engine imgs = Inr (map (\<lambda>i. stub_scores (Suc i mod 3)) imgs)"

definition demo_loader :: "nat loader" where
  "demo_loader = [[(0, 0), (1, 1)], [(2, 2)]]"

definition demo_clock :: "nat \<Rightarrow> real" where
  "demo_clock i = real (i * i)"

definition set_back_clock :: "nat \<Rightarrow> real" where
  "set_back_clock i = (if i = 0 then 5 else 3)"

definition world0 :: "(nat \<Rightarrow> real) \<Rightarrow> nat world" where
  "world0 clk = \<lparr>clock = clk, ticks = 0, trace = []\<rparr>"

text \<open>
  A loader on which \<open>stub_engine\<close> gets two samples of three right, and a file system
  holding a model file of \<open>2\<^sup>2\<^sup>0\<close> bytes under the notebook's path.
\<close>

definition mixed_loader :: "nat loader" where
  "mixed_loader = [[(0, 0), (1, 2)], [(2, 2)]]"

definition onnx_model_path :: string where
  "onnx_model_path = ''models/food11.onnx''"

definition demo_fs :: filesystem where
  "demo_fs = Map.empty(onnx_model_path \<mapsto> 1048576)"

section \<open>Auxiliary facts\<close>

subsection \<open>The timed loop\<close>

lemma upt_shift: "[0..<Suc n] = 0 # map Suc [0..<n]"
  by (simp add: upt_conv_Cons map_Suc_upt del: upt_Suc)

lemma trial_times_Suc:
  "trial_times clk k (Suc n) = (clk (Suc k) - clk k) # trial_times clk (Suc (Suc k)) n"
  unfolding trial_times_def upt_shift by (simp add: comp_def)

lemma trial_events_concat_Suc:
  "concat (map (trial_events clk k x) [0..<Suc n]) =
     [Tick (clk k), Run x, Tick (clk (Suc k))] @ concat (map (trial_events clk (Suc (Suc k)) x) [0..<n])"
proof -
  have shift: "\<And>i. trial_events clk k x (Suc i) = trial_events clk (Suc (Suc k)) x i"
    by (simp add: trial_events_def)
  show ?thesis
    unfolding upt_shift by (simp add: comp_def shift) (simp add: trial_events_def)
qed

lemma timed_loop_run:
  assumes "e x = Inr outs"
  shows "timed_loop e x n recorded w =
           Inr (recorded @ trial_times (clock w) (ticks w) n,
                w\<lparr>ticks := ticks w + 2 * n,
                  trace := trace w @ concat (map (trial_events (clock w) (ticks w) x) [0..<n])\<rparr>)"
proof (induction n arbitrary: recorded w)
  case 0
  show ?case by (simp add: trial_times_def)
next
  case (Suc n)
  show ?case
    by (simp only: timed_loop.simps trial_times_Suc trial_events_concat_Suc)
       (simp add: time_time_def session_run_def assms Suc.IH Let_def)
qed

lemma timed_runs_trials:
  "timed_runs (concat (map (trial_events clk k x) [0..<n]) @ evs) = replicate n x @ timed_runs evs"
proof (induction n arbitrary: k)
  case 0 show ?case by simp
next
  case (Suc n)
  show ?case by (simp only: trial_events_concat_Suc) (simp add: Suc.IH)
qed

lemma run_inputs_append: "run_inputs (xs @ ys) = run_inputs xs @ run_inputs ys"
  by (induction xs rule: run_inputs.induct) auto

lemma run_inputs_trials:
  "run_inputs (concat (map (trial_events clk k x) [0..<n])) = replicate n x"
proof (induction n arbitrary: k)
  case 0 show ?case by simp
next
  case (Suc n)
  show ?case by (simp only: trial_events_concat_Suc) (simp add: Suc.IH)
qed

lemma trial_times_nonneg:
  "clock_steady clk k n \<Longrightarrow> \<forall>d \<in> set (trial_times clk k n). 0 \<le> d"
  by (auto simp: clock_steady_def trial_times_def list_all_iff)

lemma latency_cell_run:
  assumes "e (take 1 (map fst b)) = Inr outs"
  shows "latency_cell e (b # bs) num_trials w =
           Inr (trial_times (clock w) (ticks w) (nat num_trials),
                w\<lparr>ticks := ticks w + 2 * nat num_trials,
                  trace := trace w @ Run (take 1 (map fst b)) #
                    concat (map (trial_events (clock w) (ticks w) (take 1 (map fst b))) [0..<nat num_trials])\<rparr>)"
  using assms
  by (simp add: latency_cell_def py_next_def py_iter_def session_run_def Let_def
        timed_loop_run [of e "take (Suc 0) (map fst b)" outs])

lemma batch_cell_run:
  assumes "e (map fst b) = Inr outs"
  shows "batch_cell e (b # bs) num_batches w =
           Inr ((map fst b, trial_times (clock w) (ticks w) (nat num_batches)),
                w\<lparr>ticks := ticks w + 2 * nat num_batches,
                  trace := trace w @ Run (map fst b) #
                    concat (map (trial_events (clock w) (ticks w) (map fst b)) [0..<nat num_batches])\<rparr>)"
  using assms
  by (simp add: batch_cell_def py_next_def py_iter_def session_run_def Let_def
        timed_loop_run [of e "map fst b" outs])

lemma length_trial_times: "length (trial_times clk k n) = n"
  by (simp add: trial_times_def)

lemma nth_trial_times: "i < n \<Longrightarrow> trial_times clk k n ! i = clk (k + 2 * i + 1) - clk (k + 2 * i)"
  by (simp add: trial_times_def)

subsection \<open>Rank interpolation\<close>

lemma np_percentile_interp:
  "0 \<le> q \<Longrightarrow> q \<le> 100 \<Longrightarrow> a \<noteq> [] \<Longrightarrow>
   np_percentile a q = Inr (rank_interp (sort a) (real (length a - 1) * (q / 100)))"
  by (simp add: np_percentile_def rank_interp_def Let_def)

lemma rank_interp_bounds:
  assumes "sorted s" "0 \<le> v" "v \<le> real (length s - 1)" "s \<noteq> []"
  shows "s ! nat \<lfloor>v\<rfloor> \<le> rank_interp s v"
    and "rank_interp s v \<le> s ! min (nat \<lfloor>v\<rfloor> + 1) (length s - 1)"
proof -
  let ?lo = "nat \<lfloor>v\<rfloor>" and ?hi = "min (nat \<lfloor>v\<rfloor> + 1) (length s - 1)"
  have lo_le: "?lo \<le> length s - 1" using assms by linarith
  have hi_lt: "?hi < length s" using assms by (cases s) auto
  have lo_hi: "?lo \<le> ?hi" using lo_le by simp
  have d: "0 \<le> s ! ?hi - s ! ?lo"
    using sorted_nth_mono [OF assms(1) lo_hi hi_lt] by simp
  have g0: "0 \<le> v - real ?lo" using assms(2) by linarith
  have g1: "v - real ?lo \<le> 1" using assms(2) by linarith
  show "s ! ?lo \<le> rank_interp s v"
    unfolding rank_interp_def using d g0 by simp
  have "(s ! ?hi - s ! ?lo) * (v - real ?lo) \<le> (s ! ?hi - s ! ?lo) * 1"
    by (rule mult_left_mono [OF g1 d])
  then show "rank_interp s v \<le> s ! ?hi"
    unfolding rank_interp_def by simp
qed

lemma rank_interp_mono:
  assumes "sorted s" "s \<noteq> []" "0 \<le> v" "v \<le> v'" "v' \<le> real (length s - 1)"
  shows "rank_interp s v \<le> rank_interp s v'"
proof (cases "nat \<lfloor>v\<rfloor> = nat \<lfloor>v'\<rfloor>")
  case True
  let ?lo = "nat \<lfloor>v\<rfloor>" and ?hi = "min (nat \<lfloor>v\<rfloor> + 1) (length s - 1)"
  have lo_le: "?lo \<le> length s - 1" using assms by linarith
  have hi_lt: "?hi < length s" using assms by (cases s) auto
  have lo_hi: "?lo \<le> ?hi" using lo_le by simp
  have d: "0 \<le> s ! ?hi - s ! ?lo"
    using sorted_nth_mono [OF assms(1) lo_hi hi_lt] by simp
  have "(s ! ?hi - s ! ?lo) * (v - real ?lo) \<le> (s ! ?hi - s ! ?lo) * (v' - real ?lo)"
    by (rule mult_left_mono [OF _ d]) (use assms(4) in simp)
  then show ?thesis
    unfolding rank_interp_def True [symmetric] by simp
next
  case False
  let ?lo = "nat \<lfloor>v\<rfloor>" and ?hi = "min (nat \<lfloor>v\<rfloor> + 1) (length s - 1)" and ?lo' = "nat \<lfloor>v'\<rfloor>"
  have "\<lfloor>v\<rfloor> \<le> \<lfloor>v'\<rfloor>" using assms(4) by (rule floor_mono)
  then have lt: "?lo < ?lo'" using False by linarith
  have lo'_lt: "?lo' < length s" using assms by (cases s) (auto, linarith)
  have hi_lo': "?hi \<le> ?lo'" by (rule min.coboundedI1) (use lt in linarith)
  have v_le: "v \<le> real (length s - 1)" using assms by linarith
  have v'_ge: "0 \<le> v'" using assms by linarith
  have "rank_interp s v \<le> s ! ?hi"
    by (rule rank_interp_bounds(2) [OF assms(1) assms(3) v_le assms(2)])
  also have "s ! ?hi \<le> s ! ?lo'"
    by (rule sorted_nth_mono [OF assms(1) hi_lo' lo'_lt])
  also have "s ! ?lo' \<le> rank_interp s v'"
    by (rule rank_interp_bounds(1) [OF assms(1) v'_ge assms(5) assms(2)])
  finally show ?thesis .
qed

lemma np_percentile_mono:
  assumes "a \<noteq> []" "0 \<le> q" "q \<le> q'" "q' \<le> 100"
  shows "\<exists>p p'. np_percentile a q = Inr p \<and> np_percentile a q' = Inr p' \<and> p \<le> p'"
proof -
  let ?n = "real (length a - 1)"
  have ne: "sort a \<noteq> []" using assms(1) by (metis length_0_conv length_sort)
  have s: "sorted (sort a)" "sort a \<noteq> []" using ne by simp_all
  have len: "length (sort a) = length a" by simp
  have v0: "0 \<le> ?n * (q / 100)" using assms by simp
  have vv: "?n * (q / 100) \<le> ?n * (q' / 100)" using assms by (simp add: mult_left_mono)
  have v1: "?n * (q' / 100) \<le> real (length (sort a) - 1)"
  proof -
    have "?n * (q' / 100) \<le> ?n * 1" using assms by (intro mult_left_mono) simp_all
    then show ?thesis by simp
  qed
  have "rank_interp (sort a) (?n * (q / 100)) \<le> rank_interp (sort a) (?n * (q' / 100))"
    by (rule rank_interp_mono [OF s v0 vv v1])
  moreover have "np_percentile a q = Inr (rank_interp (sort a) (?n * (q / 100)))"
    using assms by (intro np_percentile_interp) simp_all
  moreover have "np_percentile a q' = Inr (rank_interp (sort a) (?n * (q' / 100)))"
    using assms by (intro np_percentile_interp) simp_all
  ultimately show ?thesis by simp
qed

subsection \<open>Arg-max\<close>

lemma argmax_from_spec:
  "argmax_from best besti i xs = r \<Longrightarrow>
     (r = besti \<and> (\<forall>x \<in> set xs. x \<le> best))
     \<or> (i \<le> r \<and> r < i + length xs \<and> best < xs ! (r - i) \<and> (\<forall>x \<in> set xs. x \<le> xs ! (r - i)))"
proof (induction xs arbitrary: best besti i)
  case Nil
  then show ?case by simp
next
  case (Cons x xs)
  show ?case
  proof (cases "best < x")
    case True
    with Cons.prems have "argmax_from x i (Suc i) xs = r" by simp
    from Cons.IH [OF this] show ?thesis
    proof
      assume "r = i \<and> (\<forall>y \<in> set xs. y \<le> x)"
      with True show ?thesis by simp
    next
      assume a: "Suc i \<le> r \<and> r < Suc i + length xs \<and> x < xs ! (r - Suc i)
                 \<and> (\<forall>y \<in> set xs. y \<le> xs ! (r - Suc i))"
      then have "(x # xs) ! (r - i) = xs ! (r - Suc i)" by (simp add: nth_Cons')
      with a True show ?thesis by auto
    qed
  next
    case False
    with Cons.prems have "argmax_from best besti (Suc i) xs = r" by simp
    from Cons.IH [OF this] show ?thesis
    proof
      assume "r = besti \<and> (\<forall>y \<in> set xs. y \<le> best)"
      with False show ?thesis by simp
    next
      assume a: "Suc i \<le> r \<and> r < Suc i + length xs \<and> best < xs ! (r - Suc i)
                 \<and> (\<forall>y \<in> set xs. y \<le> xs ! (r - Suc i))"
      then have "(x # xs) ! (r - i) = xs ! (r - Suc i)" by (simp add: nth_Cons')
      with a False show ?thesis by auto
    qed
  qed
qed

lemma np_argmax_is_max:
  assumes "np_argmax row = Inr r"
  shows "r < length row \<and> (\<forall>j < length row. row ! j \<le> row ! r)"
proof (cases row)
  case Nil
  with assms show ?thesis by (simp add: np_argmax_def)
next
  case (Cons x xs)
  with assms have "argmax_from x 0 1 xs = r" by (simp add: np_argmax_def)
  from argmax_from_spec [OF this] show ?thesis
  proof
    assume a: "r = 0 \<and> (\<forall>y \<in> set xs. y \<le> x)"
    have "\<And>j. j < length (x # xs) \<Longrightarrow> (x # xs) ! j \<le> x"
      using a by (simp add: nth_Cons')
    with a Cons show ?thesis by simp
  next
    assume a: "1 \<le> r \<and> r < 1 + length xs \<and> x < xs ! (r - 1) \<and> (\<forall>y \<in> set xs. y \<le> xs ! (r - 1))"
    then have r: "(x # xs) ! r = xs ! (r - 1)" by (simp add: nth_Cons')
    have "\<And>j. j < length (x # xs) \<Longrightarrow> (x # xs) ! j \<le> xs ! (r - 1)"
      using a by (auto simp: nth_Cons')
    with a r Cons show ?thesis by simp
  qed
qed

lemma np_argmax_total: "row \<noteq> [] \<Longrightarrow> \<exists>r. np_argmax row = Inr r"
  by (cases row) (simp_all add: np_argmax_def)

lemma np_argmax_highest:
  assumes "scores_highest row c"
  shows "np_argmax row = Inr c"
proof -
  from assms have c: "c < length row" and hi: "\<And>j. j < length row \<Longrightarrow> j \<noteq> c \<Longrightarrow> row ! j < row ! c"
    by (auto simp: scores_highest_def list_all_iff)
  from c have "row \<noteq> []" by auto
  then obtain r where r: "np_argmax row = Inr r" using np_argmax_total by blast
  from np_argmax_is_max [OF r] have rl: "r < length row" and mx: "row ! c \<le> row ! r"
    using c by auto
  have "r = c"
  proof (rule ccontr)
    assume "r \<noteq> c"
    from hi [OF rl this] mx show False by simp
  qed
  with r show ?thesis by simp
qed

lemma np_argmax_axis1_all2:
  "list_all2 (\<lambda>row k. np_argmax row = Inr k) outputs ks \<Longrightarrow> np_argmax_axis1 outputs = Inr ks"
  by (induction rule: list_all2_induct) simp_all

lemma np_argmax_axis1_length:
  "np_argmax_axis1 outputs = Inr ks \<Longrightarrow> length ks = length outputs"
  by (induction outputs arbitrary: ks) (auto split: sum.splits)

lemma np_argmax_axis1_highest:
  assumes "list_all2 scores_highest outputs labels"
  shows "np_argmax_axis1 outputs = Inr labels"
proof -
  from assms have "list_all2 (\<lambda>row k. np_argmax row = Inr k) outputs labels"
    by (rule list_all2_mono) (rule np_argmax_highest)
  then show ?thesis by (rule np_argmax_axis1_all2)
qed

lemma np_argmax_axis1_wrong:
  assumes "list_all2 (\<lambda>row l. case np_argmax row of Inl err \<Rightarrow> False | Inr p \<Rightarrow> p \<noteq> l) outputs labels"
  shows "\<exists>predicted. np_argmax_axis1 outputs = Inr predicted \<and> list_all2 (\<noteq>) predicted labels"
  using assms by (induction rule: list_all2_induct) (auto split: sum.splits)

subsection \<open>Counting matches\<close>

lemma filter_zip_same: "filter (\<lambda>(p, l). p = l) (zip ls ls) = zip ls ls"
  by (induction ls) simp_all

lemma np_eq_sum_same: "np_eq_sum labels labels = Inr (int (length labels))"
  by (simp add: np_eq_sum_def filter_zip_same)

lemma filter_zip_differ: "list_all2 (\<noteq>) ps ls \<Longrightarrow> filter (\<lambda>(p, l). p = l) (zip ps ls) = []"
  by (induction rule: list_all2_induct) simp_all

lemma np_eq_sum_differ: "list_all2 (\<noteq>) ps ls \<Longrightarrow> np_eq_sum ps ls = Inr 0"
  by (simp add: np_eq_sum_def filter_zip_differ list_all2_lengthD)

lemma np_eq_sum_bounds:
  assumes "np_eq_sum ps ls = Inr k" and "length ps = length ls"
  shows "0 \<le> k \<and> k \<le> int (length ls)"
proof -
  have "length (filter (\<lambda>(p, l). p = l) (zip ps ls)) \<le> length (zip ps ls)"
    by (rule length_filter_le)
  with assms show ?thesis by (auto simp: np_eq_sum_def)
qed

subsection \<open>The accuracy loop\<close>

lemma accuracy_loop_step:
  assumes "e (map fst b) = Inr outputs" and "np_argmax_axis1 outputs = Inr predicted"
    and "np_eq_sum predicted (map snd b) = Inr k"
  shows "accuracy_loop e (b # bs) (c, t) w =
           accuracy_loop e bs (c + k, t + int (length b)) (w\<lparr>trace := trace w @ [Run (map fst b)]\<rparr>)"
  using assms by (simp add: session_run_def Let_def)

lemma accuracy_loop_stepD:
  assumes "accuracy_loop e (b # bs) (c, t) w = Inr res"
  shows "\<exists>outputs predicted k. e (map fst b) = Inr outputs
           \<and> np_argmax_axis1 outputs = Inr predicted
           \<and> np_eq_sum predicted (map snd b) = Inr k
           \<and> accuracy_loop e bs (c + k, t + int (length b))
                (w\<lparr>trace := trace w @ [Run (map fst b)]\<rparr>) = Inr res"
  using assms by (auto simp: session_run_def Let_def split: sum.splits)

lemma samples_of_Cons: "samples_of (b # bs) = length b + samples_of bs"
  by (simp add: samples_of_def)

lemma accuracy_loop_frame:
  "accuracy_loop e bs (c, t) w = Inr ((c', t'), w') \<Longrightarrow>
     w' = w\<lparr>trace := trace w @ map (\<lambda>b. Run (map fst b)) bs\<rparr> \<and> t' = t + int (samples_of bs)"
proof (induction bs arbitrary: c t w)
  case Nil
  then show ?case by (simp add: samples_of_def)
next
  case (Cons b bs)
  from accuracy_loop_stepD [OF Cons.prems] obtain k where
    "accuracy_loop e bs (c + k, t + int (length b)) (w\<lparr>trace := trace w @ [Run (map fst b)]\<rparr>)
       = Inr ((c', t'), w')"
    by blast
  from Cons.IH [OF this] show ?case by (simp add: samples_of_Cons)
qed

lemma accuracy_loop_bounds:
  "one_row_per_image e bs \<Longrightarrow> accuracy_loop e bs (c, t) w = Inr ((c', t'), w') \<Longrightarrow>
     c \<le> c' \<and> c' - c \<le> t' - t"
proof (induction bs arbitrary: c t w)
  case Nil
  then show ?case by simp
next
  case (Cons b bs)
  from accuracy_loop_stepD [OF Cons.prems(2)] obtain outputs predicted k where
    s: "e (map fst b) = Inr outputs" "np_argmax_axis1 outputs = Inr predicted"
       "np_eq_sum predicted (map snd b) = Inr k"
       "accuracy_loop e bs (c + k, t + int (length b)) (w\<lparr>trace := trace w @ [Run (map fst b)]\<rparr>)
          = Inr ((c', t'), w')"
    by blast
  from Cons.prems(1) s(1) have len: "length outputs = length b" and rest: "one_row_per_image e bs"
    by (simp_all add: one_row_per_image_def)
  from np_argmax_axis1_length [OF s(2)] len have "length predicted = length (map snd b)" by simp
  from np_eq_sum_bounds [OF s(3) this] have k: "0 \<le> k" "k \<le> int (length b)" by simp_all
  from Cons.IH [OF rest s(4)] k show ?case by simp
qed

lemma accuracy_loop_correct:
  "always_correct e bs \<Longrightarrow>
     accuracy_loop e bs (c, t) w =
       Inr ((c + int (samples_of bs), t + int (samples_of bs)),
            w\<lparr>trace := trace w @ map (\<lambda>b. Run (map fst b)) bs\<rparr>)"
proof (induction bs arbitrary: c t w)
  case Nil
  then show ?case by (simp add: samples_of_def)
next
  case (Cons b bs)
  from Cons.prems obtain outputs where
    o: "e (map fst b) = Inr outputs" "list_all2 scores_highest outputs (map snd b)"
    and rest: "always_correct e bs"
    by (auto simp: always_correct_def split: sum.splits)
  have p: "np_argmax_axis1 outputs = Inr (map snd b)" by (rule np_argmax_axis1_highest [OF o(2)])
  have k: "np_eq_sum (map snd b) (map snd b) = Inr (int (length b))"
    using np_eq_sum_same [of "map snd b"] by simp
  show ?case
    unfolding accuracy_loop_step [of e b outputs, OF o(1) p k] Cons.IH [OF rest]
    by (simp add: samples_of_Cons)
qed

lemma accuracy_loop_wrong:
  "always_wrong e bs \<Longrightarrow>
     accuracy_loop e bs (c, t) w =
       Inr ((c, t + int (samples_of bs)),
            w\<lparr>trace := trace w @ map (\<lambda>b. Run (map fst b)) bs\<rparr>)"
proof (induction bs arbitrary: c t w)
  case Nil
  then show ?case by (simp add: samples_of_def)
next
  case (Cons b bs)
  from Cons.prems obtain outputs where
    o: "e (map fst b) = Inr outputs"
       "list_all2 (\<lambda>row l. case np_argmax row of Inl err \<Rightarrow> False | Inr p \<Rightarrow> p \<noteq> l) outputs (map snd b)"
    and rest: "always_wrong e bs"
    by (auto simp: always_wrong_def split: sum.splits)
  from np_argmax_axis1_wrong [OF o(2)] obtain predicted where
    p: "np_argmax_axis1 outputs = Inr predicted" "list_all2 (\<noteq>) predicted (map snd b)" by blast
  have k: "np_eq_sum predicted (map snd b) = Inr 0" by (rule np_eq_sum_differ [OF p(2)])
  show ?case
    unfolding accuracy_loop_step [of e b outputs, OF o(1) p(1) k] Cons.IH [OF rest]
    by (simp add: samples_of_Cons)
qed

subsection \<open>What a successful timing cell tells about its inputs\<close>

lemma latency_cellD:
  assumes "latency_cell e test_loader num_trials w = Inr res"
  shows "\<exists>b bs outs. test_loader = b # bs \<and> e (take 1 (map fst b)) = Inr outs"
  using assms
  by (cases test_loader)
     (auto simp: latency_cell_def py_next_def py_iter_def session_run_def Let_def
           split: sum.splits simp del: One_nat_def)

lemma batch_cellD:
  assumes "batch_cell e test_loader num_batches w = Inr res"
  shows "\<exists>b bs outs. test_loader = b # bs \<and> e (map fst b) = Inr outs"
  using assms
  by (cases test_loader)
     (auto simp: batch_cell_def py_next_def py_iter_def session_run_def Let_def
           split: sum.splits)

subsection \<open>Concrete runs of the stubs\<close>

lemma stub_engine_batch: "stub_engine (map fst [(0, 0), (1, 1)]) = Inr [stub_scores 0, stub_scores 1]"
  by (simp add: stub_engine_def)

lemma stub_engine_single: "stub_engine (take 1 (map fst [(0, 0), (1, 1)])) = Inr [stub_scores 0]"
  by (simp add: stub_engine_def)

lemma upt3: "[0..<3] = [0, 1, 2]"
  by (simp add: upt_conv_Cons)

lemma stub_always_correct: "always_correct stub_engine demo_loader"
  by (simp add: always_correct_def demo_loader_def stub_engine_def stub_scores_def
        scores_highest_def upt3)

lemma wrong_always_wrong: "always_wrong wrong_engine demo_loader"
  by (simp add: always_wrong_def demo_loader_def wrong_engine_def stub_scores_def
        np_argmax_def upt3)

lemma demo_samples: "samples_of demo_loader = 3"
  by (simp add: samples_of_def demo_loader_def)

lemma demo_batch_run:
  "batch_cell stub_engine demo_loader 2 (world0 demo_clock)
     = Inr (([0, 1], [1, 5]),
            (world0 demo_clock)
              \<lparr>ticks := 4,
                trace := [Run [0, 1], Tick 0, Run [0, 1], Tick 1, Tick 4, Run [0, 1], Tick 9]\<rparr>)"
  unfolding demo_loader_def
    batch_cell_run [of stub_engine "[(0, 0), (1, 1)]" _ "[[(2, 2)]]" 2, OF stub_engine_batch]
  by (simp add: trial_times_def trial_events_def demo_clock_def world0_def upt_conv_Cons)

lemma demo_latency_run:
  "latency_cell stub_engine demo_loader 3 (world0 demo_clock)
     = Inr ([1, 5, 9],
            (world0 demo_clock)
              \<lparr>ticks := 6,
                trace := [Run [0], Tick 0, Run [0], Tick 1, Tick 4, Run [0], Tick 9,
                          Tick 16, Run [0], Tick 25]\<rparr>)"
  unfolding demo_loader_def
    latency_cell_run [of stub_engine "[(0, 0), (1, 1)]" _ "[[(2, 2)]]" 3, OF stub_engine_single]
  by (simp add: trial_times_def trial_events_def demo_clock_def world0_def upt_conv_Cons)

lemma mixed_one_row: "one_row_per_image stub_engine mixed_loader"
  by (simp add: one_row_per_image_def mixed_loader_def stub_engine_def)

lemma mixed_cell: "accuracy_cell stub_engine mixed_loader (world0 demo_clock)
       = Inr (\<lparr>correct = 2, total_n = 3, accuracy = Finite (200 / 3)\<rparr>,
              (world0 demo_clock)\<lparr>trace := [Run [0, 1], Run [2]]\<rparr>)"
  by (simp add: accuracy_cell_def py_iter_def mixed_loader_def session_run_def stub_engine_def
        stub_scores_def upt3 np_argmax_def np_eq_sum_def np_truediv_def np_mul_def world0_def
        Let_def)

lemma mixed_prefix: "accuracy_loop stub_engine (take 1 mixed_loader) (0, 0) (world0 demo_clock)
       = Inr ((1, 2), (world0 demo_clock)\<lparr>trace := [Run [0, 1]]\<rparr>)"
  by (simp add: mixed_loader_def session_run_def stub_engine_def
        stub_scores_def upt3 np_argmax_def np_eq_sum_def world0_def Let_def)

lemma demo_accuracy: "accuracy_cell stub_engine [[(0, 0), (1, 1)], [(2, 2)]] w
       = Inr (\<lparr>correct = 3, total_n = 3, accuracy = Finite 100\<rparr>,
              w\<lparr>trace := trace w @ [Run [0, 1], Run [2]]\<rparr>)"
  using accuracy_loop_correct [OF stub_always_correct, of 0 0 w]
  by (simp add: accuracy_cell_def py_iter_def demo_loader_def samples_of_def np_truediv_def
        np_mul_def)

lemma demo_size: "size_cell demo_fs onnx_model_path = Inr (1048576, 1.048576)"
  by (simp add: size_cell_def os_path_getsize_def demo_fs_def model_size_mb_def)

lemma demo_stats: "latency_stats [1] 1
    = Inr \<lparr>median_ms = 1000, p95_ms = 1000, p99_ms = 1000, single_fps = Finite 1\<rparr>"
  by (simp add: latency_stats_def np_percentile_def np_truediv_def Let_def)

lemma demo_notebook:
  "notebook stub_engine demo_loader demo_fs onnx_model_path 1 1 (world0 demo_clock)
     = Inr (\<lparr>acc = \<lparr>correct = 3, total_n = 3, accuracy = Finite 100\<rparr>,
             model_size = 1048576, latencies = [1],
             latency = \<lparr>median_ms = 1000, p95_ms = 1000, p99_ms = 1000, single_fps = Finite 1\<rparr>,
             batch_input = [0, 1], batch_times = [5], batch_throughput = Finite (2 / 5)\<rparr>,
            (world0 demo_clock)
              \<lparr>ticks := 4,
                trace := [Run [0, 1], Run [2], Run [0], Tick 0, Run [0], Tick 1,
                          Run [0, 1], Tick 4, Run [0, 1], Tick 9]\<rparr>)"
  unfolding notebook_def demo_loader_def demo_accuracy demo_size
    latency_cell_run [of stub_engine "[(0, 0), (1, 1)]" _ "[[(2, 2)]]", OF stub_engine_single]
    batch_cell_run [of stub_engine "[(0, 0), (1, 1)]" _ "[[(2, 2)]]", OF stub_engine_batch]
  by (simp add: trial_times_def trial_events_def demo_clock_def world0_def demo_stats
        batch_fps_def np_truediv_def)

section \<open>Properties\<close>

text \<open>
  C1 (as amended). The latency cell has no warm-up count: whatever the number of trials,
  it makes exactly one untimed call on the single-sample input, whose result is
  discarded, before the first clock reading. Given a loader with a first batch and an
  engine that answers that input, the cell then makes exactly \<open>num_trials\<close> timed calls
  on the same input and returns exactly \<open>num_trials\<close> samples, the \<open>i\<close>-th being the
  difference of the two clock readings around the \<open>i\<close>-th call (trial order, unsorted).
  Every sample is non-negative provided the clock is not set back between the two
  readings of a trial.
\<close>

theorem latency_cell_trials:
  assumes "e (take 1 (map fst b)) = Inr outs"
  shows "\<exists>lat w' evs. latency_cell e (b # bs) num_trials w = Inr (lat, w')
           \<and> length lat = nat num_trials
           \<and> (\<forall>i < nat num_trials.
                 lat ! i = clock w (ticks w + 2 * i + 1) - clock w (ticks w + 2 * i))
           \<and> (clock_steady (clock w) (ticks w) (nat num_trials) \<longrightarrow> (\<forall>d \<in> set lat. 0 \<le> d))
           \<and> trace w' = trace w @ Run (take 1 (map fst b)) # evs
           \<and> evs = concat (map (trial_events (clock w) (ticks w) (take 1 (map fst b)))
                              [0..<nat num_trials])
           \<and> timed_runs evs = replicate (nat num_trials) (take 1 (map fst b))
           \<and> run_inputs evs = replicate (nat num_trials) (take 1 (map fst b))"
proof -
  let ?x = "take 1 (map fst b)" and ?n = "nat num_trials"
  have tr: "timed_runs (concat (map (trial_events (clock w) (ticks w) ?x) [0..<?n])) = replicate ?n ?x"
    using timed_runs_trials [of "clock w" "ticks w" ?x ?n "[]"] by (simp del: One_nat_def)
  show ?thesis
    unfolding latency_cell_run [of e b outs, OF assms]
    using trial_times_nonneg [of "clock w" "ticks w" ?n]
    by (simp add: length_trial_times nth_trial_times tr run_inputs_trials del: One_nat_def)
qed

theorem latency_cell_trials_witness:
  "stub_engine (take 1 (map fst [(0, 0), (1, 1)])) = Inr [stub_scores 0]
   \<and> clock_steady demo_clock 0 3
   \<and> (\<exists>lat w'. latency_cell stub_engine ([(0, 0), (1, 1)] # [[(2, 2)]]) 3 (world0 demo_clock)
                   = Inr (lat, w')
         \<and> length lat = 3 \<and> (\<forall>d \<in> set lat. 0 \<le> d)
         \<and> run_inputs (trace w') = [[0], [0], [0], [0]])
   \<and> latency_cell stub_engine ([(0, 0), (1, 1)] # [[(2, 2)]]) 3 (world0 demo_clock)
        = Inr ([1, 5, 9],
               (world0 demo_clock)
                 \<lparr>ticks := 6,
                   trace := [Run [0], Tick 0, Run [0], Tick 1, Tick 4, Run [0], Tick 9,
                             Tick 16, Run [0], Tick 25]\<rparr>)"
proof -
  have h: "stub_engine (take 1 (map fst [(0, 0), (1, 1)])) = Inr [stub_scores 0]"
    by (simp add: stub_engine_def)
  have s: "clock_steady demo_clock 0 3"
    by (simp add: clock_steady_def demo_clock_def list_all_iff)
  have c: "\<exists>lat w'. latency_cell stub_engine ([(0, 0), (1, 1)] # [[(2, 2)]]) 3 (world0 demo_clock)
                   = Inr (lat, w')
         \<and> length lat = 3 \<and> (\<forall>d \<in> set lat. 0 \<le> d)
         \<and> run_inputs (trace w') = [[0], [0], [0], [0]]"
    using latency_cell_trials [where e = stub_engine and b = "[(0, 0), (1, 1)]"
      and outs = "[stub_scores 0]" and bs = "[[(2, 2)]]" and num_trials = 3
      and w = "world0 demo_clock", OF h] s
    by (auto simp: world0_def run_inputs_append numeral_eq_Suc)
  have e: "latency_cell stub_engine ([(0, 0), (1, 1)] # [[(2, 2)]]) 3 (world0 demo_clock)
        = Inr ([1, 5, 9],
               (world0 demo_clock)
                 \<lparr>ticks := 6,
                   trace := [Run [0], Tick 0, Run [0], Tick 1, Tick 4, Run [0], Tick 9,
                             Tick 16, Run [0], Tick 25]\<rparr>)"
    unfolding latency_cell_run [of stub_engine "[(0, 0), (1, 1)]" "[stub_scores 0]", OF h]
    by (simp add: trial_times_def trial_events_def demo_clock_def world0_def upt_conv_Cons)
  show ?thesis using h s c e by blast
qed

text \<open>
  The claim as stated fails: it promises non-negative samples for every run and a number
  of warm-up calls that follows a warm-up count. With a wall clock that is set back
  during the one trial (readings 5, then 3) the cell records the sample \<open>-2\<close>; and the
  trace shows the single untimed call that the cell makes whatever count is wished for.
\<close>

theorem latency_cell_negative_sample:
  "latency_cell stub_engine demo_loader 1 (world0 set_back_clock) =
     Inr ([- 2], (world0 set_back_clock)
                   \<lparr>ticks := 2, trace := [Run [0], Tick 5, Run [0], Tick 3]\<rparr>)"
  by (simp add: latency_cell_def py_next_def py_iter_def session_run_def stub_engine_def
        demo_loader_def world0_def set_back_clock_def time_time_def Let_def numeral_2_eq_2)

text \<open>
  C2 (as amended). Neither timing cell checks its trial count, and neither fails on zero
  trials. Given a loader with a first batch and an engine that answers the warm-up input,
  the latency cell and the batch cell run with zero trials each make their one untimed
  warm-up call, perform no timed call and no clock reading, and return an empty sequence
  of timings.
\<close>

theorem zero_trials_no_timed_call:
  assumes "e (take 1 (map fst b)) = Inr outs_single" and "e (map fst b) = Inr outs_batch"
  shows "latency_cell e (b # bs) 0 w
           = Inr ([], w\<lparr>trace := trace w @ [Run (take 1 (map fst b))]\<rparr>)
         \<and> batch_cell e (b # bs) 0 w
           = Inr ((map fst b, []), w\<lparr>trace := trace w @ [Run (map fst b)]\<rparr>)"
  unfolding latency_cell_run [of e b outs_single, OF assms(1)]
    batch_cell_run [of e b outs_batch, OF assms(2)]
  by (simp add: trial_times_def)

theorem zero_trials_no_timed_call_witness:
  "wrong_engine (take 1 (map fst [(2, 2)])) = Inr [stub_scores 0]
   \<and> wrong_engine (map fst [(2, 2)]) = Inr [stub_scores 0]
   \<and> latency_cell wrong_engine [[(2, 2)]] 0 (world0 set_back_clock)
        = Inr ([], (world0 set_back_clock)\<lparr>trace := [Run [2]]\<rparr>)
   \<and> batch_cell wrong_engine [[(2, 2)]] 0 (world0 set_back_clock)
        = Inr (([2], []), (world0 set_back_clock)\<lparr>trace := [Run [2]]\<rparr>)"
  using zero_trials_no_timed_call [where e = wrong_engine and b = "[(2, 2)]"
      and outs_single = "[stub_scores 0]" and outs_batch = "[stub_scores 0]" and bs = "[]"
      and w = "world0 set_back_clock"]
  by (simp add: wrong_engine_def world0_def)

text \<open>
  The claim as stated fails: with zero trials both cells return normally (an \<open>Inr\<close>
  result with no timings) instead of raising.
\<close>

theorem zero_trials_returns_normally:
  "latency_cell stub_engine demo_loader 0 (world0 demo_clock)
     = Inr ([], (world0 demo_clock)\<lparr>trace := [Run [0]]\<rparr>)
   \<and> batch_cell stub_engine demo_loader 0 (world0 demo_clock)
     = Inr (([0, 1], []), (world0 demo_clock)\<lparr>trace := [Run [0, 1]]\<rparr>)"
  by (simp add: latency_cell_def batch_cell_def py_next_def py_iter_def session_run_def
        stub_engine_def demo_loader_def world0_def Let_def)

text \<open>
  C3. For every non-empty sequence of latency samples the three percentiles exist and are
  ordered, p50 \<open>\<le>\<close> p95 \<open>\<le>\<close> p99, and so are the three numbers (in milliseconds) that the
  statistics cell reports from them.
\<close>

theorem percentiles_monotone:
  assumes "lat \<noteq> []"
  shows "\<exists>p50 p95 p99.
           np_percentile lat 50 = Inr p50 \<and> np_percentile lat 95 = Inr p95
           \<and> np_percentile lat 99 = Inr p99 \<and> p50 \<le> p95 \<and> p95 \<le> p99
           \<and> latency_stats lat num_trials =
               Inr \<lparr>median_ms = p50 * 1000, p95_ms = p95 * 1000, p99_ms = p99 * 1000,
                    single_fps = np_truediv (real_of_int num_trials) (sum_list lat)\<rparr>"
proof -
  obtain p50 p95 where a: "np_percentile lat 50 = Inr p50" "np_percentile lat 95 = Inr p95" "p50 \<le> p95"
    using np_percentile_mono [OF assms, of 50 95] by auto
  obtain p95' p99 where b: "np_percentile lat 95 = Inr p95'" "np_percentile lat 99 = Inr p99" "p95' \<le> p99"
    using np_percentile_mono [OF assms, of 95 99] by auto
  from a b have "p95' = p95" by simp
  with a b show ?thesis by (simp add: latency_stats_def)
qed

theorem percentiles_monotone_witness:
  "[3, 1, 2, 10] \<noteq> ([] :: real list)
   \<and> (\<exists>p50 p95 p99.
         np_percentile [3, 1, 2, 10] 50 = Inr p50 \<and> np_percentile [3, 1, 2, 10] 95 = Inr p95
         \<and> np_percentile [3, 1, 2, 10] 99 = Inr p99 \<and> p50 \<le> p95 \<and> p95 \<le> p99)
   \<and> np_percentile [3, 1, 2, 10] 50 = Inr (5 / 2)
   \<and> np_percentile [3, 1, 2, 10] 95 = Inr (179 / 20)
   \<and> np_percentile [3, 1, 2, 10] 99 = Inr (979 / 100)"
proof -
  have h: "[3, 1, 2, 10] \<noteq> ([] :: real list)" by simp
  have c: "\<exists>p50 p95 p99.
         np_percentile [3, 1, 2, 10] 50 = Inr p50 \<and> np_percentile [3, 1, 2, 10] 95 = Inr p95
         \<and> np_percentile [3, 1, 2, 10] 99 = Inr p99 \<and> p50 \<le> p95 \<and> p95 \<le> p99"
    using percentiles_monotone [OF h, of 4] by blast
  have e: "np_percentile [3, 1, 2, 10] 50 = Inr (5 / 2)"
      "np_percentile [3, 1, 2, 10] 95 = Inr (179 / 20)"
      "np_percentile [3, 1, 2, 10] 99 = Inr (979 / 100)"
    by (simp_all add: np_percentile_def Let_def)
  show ?thesis using h c e by blast
qed

text \<open>
  C4. For every batch size B, every trial count T \<open>\<ge>\<close> 1 and every list of batch timings with
  positive sum S, the batch throughput of cell 20 is \<open>(B * T) / S\<close>: the samples of all
  trials over the total time, not a mean of per-call rates. Whenever the lists are the
  ones cell 19 left behind, B is the size of the first batch of the loader and T the
  number of timings.
\<close>

theorem batch_throughput_formula:
  assumes "1 \<le> num_batches" and "0 < sum_list bt"
  shows "batch_fps bi num_batches bt
           = Finite (real (length bi) * real_of_int num_batches / sum_list bt)
         \<and> (\<forall>e test_loader w w'.
               batch_cell e test_loader num_batches w = Inr ((bi, bt), w')
               \<longrightarrow> int (length bt) = num_batches
                 \<and> (\<exists>b bs. test_loader = b # bs \<and> bi = map fst b))"
proof (intro conjI allI impI)
  from assms(2) show "batch_fps bi num_batches bt
           = Finite (real (length bi) * real_of_int num_batches / sum_list bt)"
    by (simp add: batch_fps_def np_truediv_def)
next
  fix e :: "'a engine" and test_loader w w'
  assume run: "batch_cell e test_loader num_batches w = Inr ((bi, bt), w')"
  from batch_cellD [OF run] obtain b bs outs where
    l: "test_loader = b # bs" and o: "e (map fst b) = Inr outs" by blast
  from run have r: "bi = map fst b" "bt = trial_times (clock w) (ticks w) (nat num_batches)"
    unfolding l batch_cell_run [of e b outs, OF o] by simp_all
  from r(2) assms(1) show "int (length bt) = num_batches" by (simp add: length_trial_times)
  from l r(1) show "\<exists>b bs. test_loader = b # bs \<and> bi = map fst b" by simp
qed

theorem batch_throughput_formula_witness:
  "(1 :: int) \<le> 2 \<and> 0 < sum_list [1, 5 :: real]
   \<and> batch_cell stub_engine demo_loader 2 (world0 demo_clock)
     = Inr (([0, 1], [1, 5]),
            (world0 demo_clock)
              \<lparr>ticks := 4,
                trace := [Run [0, 1], Tick 0, Run [0, 1], Tick 1, Tick 4, Run [0, 1], Tick 9]\<rparr>)
   \<and> batch_fps [0, 1 :: nat] 2 [1, 5] = Finite (2 / 3)
   \<and> int (length [1, 5 :: real]) = 2
   \<and> Finite (2 / 3) \<noteq> Finite ((2 / 1 + 2 / 5) / 2)"
proof -
  have t: "(1 :: int) \<le> 2" and pos: "0 < sum_list [1, 5 :: real]" by simp_all
  from batch_throughput_formula [OF t pos, of "[0, 1 :: nat]"] demo_batch_run
  have "batch_fps [0, 1 :: nat] 2 [1, 5] = Finite (2 / 3) \<and> int (length [1, 5 :: real]) = 2"
    by simp
  with demo_batch_run t pos show ?thesis by simp
qed

text \<open>
  C5. For every trial count N \<open>\<ge>\<close> 1 and every list of latency samples with positive sum,
  the statistics cell succeeds and reports the single-sample throughput N divided by the
  sum of the samples; whenever the list is the one cell 16 recorded, it has N samples.
\<close>

theorem single_sample_throughput_formula:
  assumes "1 \<le> num_trials" and "0 < sum_list lat"
  shows "(\<exists>rep. latency_stats lat num_trials = Inr rep
            \<and> single_fps rep = Finite (real_of_int num_trials / sum_list lat))
         \<and> (\<forall>e test_loader w w'.
               latency_cell e test_loader num_trials w = Inr (lat, w')
               \<longrightarrow> int (length lat) = num_trials)"
proof (intro conjI allI impI)
  from assms(2) have "lat \<noteq> []" by auto
  from np_percentile_mono [OF this, of 50 95] np_percentile_mono [OF this, of 95 99]
  obtain p50 p95 p99 where "np_percentile lat 50 = Inr p50" "np_percentile lat 95 = Inr p95"
      "np_percentile lat 99 = Inr p99"
    by auto
  then show "\<exists>rep. latency_stats lat num_trials = Inr rep
            \<and> single_fps rep = Finite (real_of_int num_trials / sum_list lat)"
    using assms(2) by (simp add: latency_stats_def np_truediv_def)
next
  fix e :: "'a engine" and test_loader w w'
  assume run: "latency_cell e test_loader num_trials w = Inr (lat, w')"
  from latency_cellD [OF run] obtain b bs outs where
    l: "test_loader = b # bs" and o: "e (take 1 (map fst b)) = Inr outs" by blast
  from run have "lat = trial_times (clock w) (ticks w) (nat num_trials)"
    unfolding l latency_cell_run [of e b outs, OF o] by simp
  with assms(1) show "int (length lat) = num_trials" by (simp add: length_trial_times)
qed

theorem single_sample_throughput_formula_witness:
  "(1 :: int) \<le> 3 \<and> 0 < sum_list [1, 5, 9 :: real]
   \<and> latency_cell stub_engine demo_loader 3 (world0 demo_clock)
     = Inr ([1, 5, 9],
            (world0 demo_clock)
              \<lparr>ticks := 6,
                trace := [Run [0], Tick 0, Run [0], Tick 1, Tick 4, Run [0], Tick 9,
                          Tick 16, Run [0], Tick 25]\<rparr>)
   \<and> (\<exists>rep. latency_stats [1, 5, 9] 3 = Inr rep \<and> single_fps rep = Finite (1 / 5))
   \<and> int (length [1, 5, 9 :: real]) = 3"
proof -
  have t: "(1 :: int) \<le> 3" and pos: "0 < sum_list [1, 5, 9 :: real]" by simp_all
  from single_sample_throughput_formula [OF t pos] demo_latency_run
  have "(\<exists>rep. latency_stats [1, 5, 9] 3 = Inr rep \<and> single_fps rep = Finite (1 / 5))
        \<and> int (length [1, 5, 9 :: real]) = 3"
    by simp
  with demo_latency_run t pos show ?thesis by simp
qed

text \<open>
  C6. On a dataset with at least one sample the accuracy cell runs the engine on every
  batch of the loader exactly once, in loader order, and compares the arg-max class of
  each row with the label. With an engine that always scores the label's class strictly
  highest it ends with \<open>correct = total\<close> (the number of samples) and accuracy 100; with
  an engine whose arg-max class is never the label it ends with \<open>correct = 0\<close> and
  accuracy 0.
\<close>

theorem accuracy_cell_stub_engines:
  assumes "0 < samples_of test_loader"
  shows "(always_correct e test_loader \<longrightarrow>
            accuracy_cell e test_loader w =
              Inr (\<lparr>correct = int (samples_of test_loader), total_n = int (samples_of test_loader),
                    accuracy = Finite 100\<rparr>,
                   w\<lparr>trace := trace w @ map (\<lambda>b. Run (map fst b)) test_loader\<rparr>))
       \<and> (always_wrong e test_loader \<longrightarrow>
            accuracy_cell e test_loader w =
              Inr (\<lparr>correct = 0, total_n = int (samples_of test_loader), accuracy = Finite 0\<rparr>,
                   w\<lparr>trace := trace w @ map (\<lambda>b. Run (map fst b)) test_loader\<rparr>))"
proof -
  from assms have ne: "test_loader \<noteq> []" by (auto simp: samples_of_def)
  show ?thesis
    using assms ne
    by (auto simp: accuracy_cell_def py_iter_def accuracy_loop_correct accuracy_loop_wrong
          np_truediv_def np_mul_def)
qed

theorem accuracy_cell_stub_engines_witness:
  "0 < samples_of demo_loader
   \<and> always_correct stub_engine demo_loader
   \<and> accuracy_cell stub_engine demo_loader (world0 demo_clock)
       = Inr (\<lparr>correct = 3, total_n = 3, accuracy = Finite 100\<rparr>,
              (world0 demo_clock)\<lparr>trace := [Run [0, 1], Run [2]]\<rparr>)
   \<and> always_wrong wrong_engine demo_loader
   \<and> accuracy_cell wrong_engine demo_loader (world0 demo_clock)
       = Inr (\<lparr>correct = 0, total_n = 3, accuracy = Finite 0\<rparr>,
              (world0 demo_clock)\<lparr>trace := [Run [0, 1], Run [2]]\<rparr>)"
proof -
  have n: "0 < samples_of demo_loader" by (simp add: demo_samples)
  have tr: "map (\<lambda>b. Run (map fst b)) demo_loader = [Run [0, 1], Run [2]]"
    by (simp add: demo_loader_def)
  from accuracy_cell_stub_engines [OF n, of stub_engine "world0 demo_clock"] stub_always_correct
  have a: "accuracy_cell stub_engine demo_loader (world0 demo_clock)
       = Inr (\<lparr>correct = 3, total_n = 3, accuracy = Finite 100\<rparr>,
              (world0 demo_clock)\<lparr>trace := [Run [0, 1], Run [2]]\<rparr>)"
    by (simp add: demo_samples tr world0_def)
  from accuracy_cell_stub_engines [OF n, of wrong_engine "world0 demo_clock"] wrong_always_wrong
  have b: "accuracy_cell wrong_engine demo_loader (world0 demo_clock)
       = Inr (\<lparr>correct = 0, total_n = 3, accuracy = Finite 0\<rparr>,
              (world0 demo_clock)\<lparr>trace := [Run [0, 1], Run [2]]\<rparr>)"
    by (simp add: demo_samples tr world0_def)
  from n stub_always_correct wrong_always_wrong a b show ?thesis by simp
qed

text \<open>
  C7. The size cell reports the artifact size in decimal megabytes: the byte count read
  from the file system divided by \<open>10\<^sup>6\<close>. A file of exactly 1,048,576 bytes comes out
  as 1.048576 (and not as 1, which a division by \<open>2\<^sup>2\<^sup>0\<close> would give).
\<close>

theorem size_cell_decimal_megabytes:
  "size_cell (fs(p \<mapsto> n)) p = Inr (n, real n / 10 ^ 6)
   \<and> size_cell (fs(p \<mapsto> 1048576)) p = Inr (1048576, 1.048576)
   \<and> model_size_mb 1048576 \<noteq> 1048576 / 2 ^ 20"
  by (simp add: size_cell_def os_path_getsize_def model_size_mb_def)

text \<open>
  C9. For an engine that returns one row of scores per image, the counters of the
  accuracy loop satisfy \<open>0 \<le> correct \<le> total\<close> after every processed batch (that is,
  after every prefix of the loader), and so at the end; and on a dataset with at least
  one sample the final accuracy is a number between 0 and 100.
\<close>

theorem accuracy_counts_invariant:
  assumes "one_row_per_image e test_loader"
  shows "(\<forall>j c t w'. accuracy_loop e (take j test_loader) (0, 0) w = Inr ((c, t), w')
            \<longrightarrow> 0 \<le> c \<and> c \<le> t)
       \<and> (\<forall>r w'. accuracy_cell e test_loader w = Inr (r, w')
            \<longrightarrow> 0 \<le> correct r \<and> correct r \<le> total_n r
              \<and> (0 < samples_of test_loader
                   \<longrightarrow> (\<exists>a. accuracy r = Finite a \<and> 0 \<le> a \<and> a \<le> 100)))"
proof (intro conjI allI impI)
  fix j c t w'
  assume run: "accuracy_loop e (take j test_loader) (0, 0) w = Inr ((c, t), w')"
  from assms have "one_row_per_image e (take j test_loader)"
    unfolding one_row_per_image_def list_all_iff by (auto dest: in_set_takeD)
  from accuracy_loop_bounds [OF this run] show "0 \<le> c" and "c \<le> t" by simp_all
next
  fix r w'
  assume cell: "accuracy_cell e test_loader w = Inr (r, w')"
  then obtain c t where run: "accuracy_loop e test_loader (0, 0) w = Inr ((c, t), w')"
    and r: "r = \<lparr>correct = c, total_n = t,
                 accuracy = np_mul (np_truediv (real_of_int c) (real_of_int t)) 100\<rparr>"
    by (auto simp: accuracy_cell_def py_iter_def split: sum.splits if_splits)
  from accuracy_loop_bounds [OF assms run] have b: "0 \<le> c" "c \<le> t" by simp_all
  with r show "0 \<le> correct r" and "correct r \<le> total_n r" by simp_all
  assume "0 < samples_of test_loader"
  with accuracy_loop_frame [OF run] have t: "0 < t" by simp
  then have le1: "real_of_int c / real_of_int t \<le> 1" using b by simp
  have "real_of_int c / real_of_int t * 100 \<le> 1 * 100"
    by (rule mult_right_mono [OF le1]) simp
  then have "real_of_int c / real_of_int t * 100 \<le> 100" by linarith
  moreover have "0 \<le> real_of_int c / real_of_int t * 100" using b t by simp
  ultimately show "\<exists>a. accuracy r = Finite a \<and> 0 \<le> a \<and> a \<le> 100"
    using r t by (simp add: np_truediv_def np_mul_def)
qed

theorem accuracy_counts_invariant_witness:
  "one_row_per_image stub_engine mixed_loader
   \<and> 0 < samples_of mixed_loader
   \<and> accuracy_loop stub_engine (take 1 mixed_loader) (0, 0) (world0 demo_clock)
       = Inr ((1, 2), (world0 demo_clock)\<lparr>trace := [Run [0, 1]]\<rparr>)
   \<and> accuracy_cell stub_engine mixed_loader (world0 demo_clock)
       = Inr (\<lparr>correct = 2, total_n = 3, accuracy = Finite (200 / 3)\<rparr>,
              (world0 demo_clock)\<lparr>trace := [Run [0, 1], Run [2]]\<rparr>)
   \<and> (\<exists>c t w'. accuracy_loop stub_engine (take 1 mixed_loader) (0, 0) (world0 demo_clock)
                   = Inr ((c, t), w') \<and> 0 \<le> c \<and> c \<le> t)
   \<and> (\<exists>r w' a. accuracy_cell stub_engine mixed_loader (world0 demo_clock) = Inr (r, w')
         \<and> 0 \<le> correct r \<and> correct r \<le> total_n r
         \<and> accuracy r = Finite a \<and> 0 \<le> a \<and> a \<le> 100)"
proof -
  have n: "0 < samples_of mixed_loader" by (simp add: samples_of_def mixed_loader_def)
  note inv = accuracy_counts_invariant [OF mixed_one_row, of "world0 demo_clock"]
  from inv mixed_prefix
  have p: "\<exists>c t w'. accuracy_loop stub_engine (take 1 mixed_loader) (0, 0) (world0 demo_clock)
                   = Inr ((c, t), w') \<and> 0 \<le> c \<and> c \<le> t"
    by blast
  from inv mixed_cell n
  have f: "\<exists>r w' a. accuracy_cell stub_engine mixed_loader (world0 demo_clock) = Inr (r, w')
         \<and> 0 \<le> correct r \<and> correct r \<le> total_n r
         \<and> accuracy r = Finite a \<and> 0 \<le> a \<and> a \<le> 100"
    by blast
  from mixed_one_row n mixed_prefix mixed_cell p f show ?thesis by blast
qed

text \<open>
  C10. In a run of the whole notebook, after the accuracy pass has gone through all
  batches, both timing cells start a new pass at the head of the loader: every call of
  the latency cell (the warm-up and the \<open>num_trials\<close> timed ones) gets the one-image
  slice holding the first sample of the first batch, and every call of the batch cell
  (the warm-up and the \<open>num_batches\<close> timed ones) gets that whole first batch, which is
  also what the cell keeps as \<open>batch_input\<close>.
\<close>

theorem timing_inputs_from_head:
  assumes "notebook e test_loader fs path num_trials num_batches w = Inr (vars, w')"
  shows "\<exists>b bs. test_loader = b # bs
           \<and> batch_input vars = map fst b
           \<and> run_inputs (trace w') =
               run_inputs (trace w) @ map (map fst) test_loader
                 @ replicate (Suc (nat num_trials)) (take 1 (map fst b))
                 @ replicate (Suc (nat num_batches)) (map fst b)
           \<and> (b \<noteq> [] \<longrightarrow> take 1 (map fst b) = [fst (hd b)])"
proof -
  from assms obtain a w1 lat w2 rep bi bt where
    acc: "accuracy_cell e test_loader w = Inr (a, w1)"
    and lat: "latency_cell e test_loader num_trials w1 = Inr (lat, w2)"
    and bat: "batch_cell e test_loader num_batches w2 = Inr ((bi, bt), w')"
    and vars: "batch_input vars = bi"
    by (auto simp: notebook_def split: sum.splits)
  from latency_cellD [OF lat] obtain b bs outs where
    l: "test_loader = b # bs" and o1: "e (take 1 (map fst b)) = Inr outs" by blast
  from batch_cellD [OF bat] l obtain outs' where o2: "e (map fst b) = Inr outs'" by auto
  from acc obtain c t where run: "accuracy_loop e test_loader (0, 0) w = Inr ((c, t), w1)"
    by (auto simp: accuracy_cell_def py_iter_def split: sum.splits if_splits)
  have t1: "run_inputs (trace w1) = run_inputs (trace w) @ map (map fst) test_loader"
  proof -
    have "run_inputs (map (\<lambda>b. Run (map fst b)) xs) = map (map fst) xs" for xs :: "'a loader"
      by (induction xs) simp_all
    with accuracy_loop_frame [OF run] show ?thesis by (simp add: run_inputs_append)
  qed
  from lat have t2: "run_inputs (trace w2) =
      run_inputs (trace w1) @ replicate (Suc (nat num_trials)) (take 1 (map fst b))"
    unfolding l latency_cell_run [of e b outs, OF o1]
    by (auto simp: run_inputs_append run_inputs_trials simp del: One_nat_def)
  from bat have t3: "run_inputs (trace w') =
      run_inputs (trace w2) @ replicate (Suc (nat num_batches)) (map fst b)" and bi: "bi = map fst b"
    unfolding l batch_cell_run [of e b outs', OF o2]
    by (auto simp: run_inputs_append run_inputs_trials)
  have hd: "b \<noteq> [] \<longrightarrow> take 1 (map fst b) = [fst (hd b)]" by (cases b) simp_all
  show ?thesis using l vars bi t1 t2 t3 hd by simp
qed

theorem timing_inputs_from_head_witness:
  "notebook stub_engine demo_loader demo_fs onnx_model_path 1 1 (world0 demo_clock)
     = Inr (\<lparr>acc = \<lparr>correct = 3, total_n = 3, accuracy = Finite 100\<rparr>,
             model_size = 1048576, latencies = [1],
             latency = \<lparr>median_ms = 1000, p95_ms = 1000, p99_ms = 1000, single_fps = Finite 1\<rparr>,
             batch_input = [0, 1], batch_times = [5], batch_throughput = Finite (2 / 5)\<rparr>,
            (world0 demo_clock)
              \<lparr>ticks := 4,
                trace := [Run [0, 1], Run [2], Run [0], Tick 0, Run [0], Tick 1,
                          Run [0, 1], Tick 4, Run [0, 1], Tick 9]\<rparr>)
   \<and> (\<exists>b bs. demo_loader = b # bs
         \<and> run_inputs [Run [0, 1], Run [2], Run [0], Tick 0, Run [0], Tick 1,
                        Run [0, 1], Tick 4, Run [0, 1], Tick 9]
             = map (map fst) demo_loader @ replicate 2 (take 1 (map fst b))
                 @ replicate 2 (map fst b)
         \<and> take 1 (map fst b) = [fst (hd b)])"
proof -
  from timing_inputs_from_head [OF demo_notebook]
  have "\<exists>b bs. demo_loader = b # bs
         \<and> run_inputs [Run [0, 1], Run [2], Run [0], Tick 0, Run [0], Tick 1,
                        Run [0, 1], Tick 4, Run [0, 1], Tick 9]
             = map (map fst) demo_loader @ replicate 2 (take 1 (map fst b))
                 @ replicate 2 (map fst b)
         \<and> take 1 (map fst b) = [fst (hd b)]"
    by (auto simp: world0_def demo_loader_def numeral_2_eq_2)
  with demo_notebook show ?thesis by blast
qed

end
